theory Spec2Isabelle
  imports Complex_Main
begin

section \<open>Python values the manager handles\<close>

text \<open>
  The exceptions that the calls of \<^verbatim>\<open>git_repository_manager.py\<close> can raise while they
  run. These are the synchronous exceptions, all of them instances of \<^verbatim>\<open>Exception\<close>;
  each handler of the source names one class, and the classes below are pairwise
  unrelated by inheritance (\<^verbatim>\<open>PermissionError\<close> and \<^verbatim>\<open>FileNotFoundError\<close> are
  \<^verbatim>\<open>OSError\<close>s and are written \<open>OSError\<close> with their message).
  \<open>CalledProcessError\<close> carries the return code, the command, and the captured
  standard output and standard error.
\<close>

datatype exn =
    CalledProcessError int "string list" string string
  | JSONDecodeError
  | UnicodeDecodeError
  | OSError string
  | TypeError
  | AttributeError

fun is_CalledProcessError :: "exn \<Rightarrow> bool" where
  "is_CalledProcessError (CalledProcessError rc cmd out err) = True"
| "is_CalledProcessError e = False"

fun is_JSONDecodeError :: "exn \<Rightarrow> bool" where
  "is_JSONDecodeError JSONDecodeError = True"
| "is_JSONDecodeError e = False"

fun is_OSError :: "exn \<Rightarrow> bool" where
  "is_OSError (OSError msg) = True"
| "is_OSError e = False"

text \<open>
  What \<^verbatim>\<open>json.load\<close> returns: \<^verbatim>\<open>None\<close>, a \<^verbatim>\<open>bool\<close>, an \<^verbatim>\<open>int\<close>, a \<^verbatim>\<open>float\<close>, a
  \<^verbatim>\<open>str\<close>, a \<^verbatim>\<open>list\<close> or a \<^verbatim>\<open>dict\<close> with string keys in insertion order. A float is
  a finite rational or one of the three special values that \<^verbatim>\<open>json.load\<close> accepts.
\<close>

datatype pyfloat = Finite rat | PosInfinity | NegInfinity | NaN

datatype json =
    JNull
  | JBool bool
  | JInt int
  | JFloat pyfloat
  | JStr string
  | JList "json list"
  | JDict "(string \<times> json) list"

text \<open>Python's truth value of such an object, as \<^verbatim>\<open>not paths\<close> tests it.\<close>

fun truthy :: "json \<Rightarrow> bool" where
  "truthy JNull = False"
| "truthy (JBool b) = b"
| "truthy (JInt i) = (i \<noteq> 0)"
| "truthy (JFloat f) = (f \<noteq> Finite 0)"
| "truthy (JStr s) = (s \<noteq> [])"
| "truthy (JList xs) = (xs \<noteq> [])"
| "truthy (JDict kvs) = (kvs \<noteq> [])"

text \<open>\<^verbatim>\<open>paths.items()\<close>: only a \<^verbatim>\<open>dict\<close> has the attribute.\<close>

fun items :: "json \<Rightarrow> exn + (string \<times> json) list" where
  "items (JDict kvs) = Inr kvs"
| "items v = Inl AttributeError"

text \<open>\<^verbatim>\<open>len(paths)\<close> of a \<^verbatim>\<open>dict\<close>.\<close>

definition len :: "(string \<times> json) list \<Rightarrow> nat" where
  "len kvs = length kvs"

text \<open>
  \<^verbatim>\<open>str.strip()\<close> removes leading and trailing whitespace. Strings are lists of 8-bit
  characters here, read as code points up to 255; the whitespace among those is
  TAB to CR, FS to US, SPACE, NEL and NBSP.
\<close>

definition isspace :: "char \<Rightarrow> bool" where
  "isspace c = (of_char c \<in> {9, 10, 11, 12, 13, 28, 29, 30, 31, 32, 133, 160 :: nat})"

definition strip :: "string \<Rightarrow> string" where
  "strip s = rev (dropWhile isspace (rev (dropWhile isspace s)))"

text \<open>\<^verbatim>\<open>not x\<close> for \<^verbatim>\<open>x: bool | None\<close>: \<^verbatim>\<open>None\<close> is falsy.\<close>

fun py_not :: "bool option \<Rightarrow> bool" where
  "py_not None = True"
| "py_not (Some b) = (\<not> b)"

section \<open>The world outside the process\<close>

text \<open>
  A subprocess invocation is the argument vector and the working directory. A process
  that ran to its end has a return code and the two captured streams.
\<close>

type_synonym invocation = "string list \<times> string"

datatype completed = Completed (returncode: int) (stdout: string) (stderr: string)

text \<open>
  The file at \<^verbatim>\<open>self.paths_file\<close>: absent, present (with what opening it and
  \<^verbatim>\<open>json.load\<close> give: a value or an exception), or not even reachable by
  \<^verbatim>\<open>Path.exists()\<close>, which re-raises the \<^verbatim>\<open>OSError\<close>s it does not ignore.
\<close>

datatype file_read = Loads json | LoadRaises exn

datatype paths_file_state = Absent | Present file_read | StatRaises exn

text \<open>
  The behaviour of the filesystem and of the \<^verbatim>\<open>git\<close> executable. The run is sequential
  and the world deterministic, so each answer is a function of the subprocesses run so
  far:
  \<^item> \<open>entry_at h p\<close>: whether the path \<open>p\<close> names an entry of the filesystem after the
    invocations \<open>h\<close>;
  \<^item> \<open>stat_error_at h p\<close>: the \<^verbatim>\<open>OSError\<close> that \<^verbatim>\<open>os.stat\<close> raises for \<open>p\<close> after \<open>h\<close>
    and that \<^verbatim>\<open>pathlib\<close> does not ignore (a name that is too long, a directory that
    may not be searched), if there is one;
  \<^item> \<open>run_at h (argv, cwd)\<close>: what running \<open>argv\<close> in \<open>cwd\<close> does after \<open>h\<close>: the
    process cannot be started or its output not decoded (an exception), or it completes;
  \<^item> \<open>write_fault\<close>: the exception that \<^verbatim>\<open>open(paths_file, "w")\<close> or \<^verbatim>\<open>json.dump\<close>
    raises, with the state this leaves the file in; \<open>None\<close> when writing works;
  \<^item> \<open>DEFAULT_COMMIT_MESSAGE\<close>: the constant of \<^verbatim>\<open>constants.py\<close>, fixed at import time.
\<close>

record env =
  entry_at :: "invocation list \<Rightarrow> string \<Rightarrow> bool"
  stat_error_at :: "invocation list \<Rightarrow> string \<Rightarrow> exn option"
  run_at :: "invocation list \<Rightarrow> invocation \<Rightarrow> exn + completed"
  write_fault :: "(exn \<times> paths_file_state) option"
  DEFAULT_COMMIT_MESSAGE :: string

text \<open>
  \<^verbatim>\<open>Path(p).exists()\<close>: it calls \<^verbatim>\<open>os.stat\<close>, re-raises an \<^verbatim>\<open>OSError\<close> that it does not
  ignore, and otherwise tells whether the entry is there.
\<close>

definition exists_at :: "env \<Rightarrow> invocation list \<Rightarrow> string \<Rightarrow> exn + bool" where
  "exists_at env h p =
     (case stat_error_at env h p of
        Some e \<Rightarrow> Inl e
      | None \<Rightarrow> Inr (entry_at env h p))"

section \<open>Log records\<close>

datatype level = INFO | WARNING | ERROR

text \<open>
  One constructor per logging call of the source, holding the values its format string
  interpolates:
  \<^item> \<open>NoPathsFound\<close>: \<^verbatim>\<open>"No repository paths found"\<close>
  \<^item> \<open>Summary c n\<close>: \<^verbatim>\<open>f"Successfully updated {success_count}/{len(paths)} repositories"\<close>
  \<^item> \<open>PathNotExist name path\<close>: \<^verbatim>\<open>f"Path for {name} does not exist: {path}"\<close>
  \<^item> \<open>NotGitRepo name path\<close>: \<^verbatim>\<open>f"Directory {name} is not a git repository: {path}"\<close>
  \<^item> \<open>NoChanges name path\<close>: \<^verbatim>\<open>f"No changes to commit in {name}: {path}"\<close>
  \<^item> \<open>Pushed name path\<close>:
    \<^verbatim>\<open>f"Successfully auto-committed and pushed changes in {name}: {path}"\<close>
  \<^item> \<open>Unexpected name path e\<close>: \<^verbatim>\<open>f"Unexpected error updating {name}: {path} - {e}"\<close>
  \<^item> \<open>CreatingEmpty\<close>: \<^verbatim>\<open>f"{self.paths_file} not found. Creating empty paths file."\<close>
  \<^item> \<open>ErrorReading e\<close>: \<^verbatim>\<open>f"Error reading {self.paths_file}: {e}"\<close>
  \<^item> \<open>ErrorWriting e\<close>: \<^verbatim>\<open>f"Error writing to {self.paths_file}: {e}"\<close>
  \<^item> \<open>StatusFailed repo_path e\<close>: \<^verbatim>\<open>f"Failed to check git status in {repo_path}: {e}"\<close>
  \<^item> \<open>CommandFailed command repo_path e out err\<close>:
    \<^verbatim>\<open>f"Git command {' '.join(command)} failed in {repo_path}: {e}"\<close>, followed by the
    \<^verbatim>\<open>STDOUT\<close> and \<^verbatim>\<open>STDERR\<close> parts when present.
\<close>

datatype message =
    NoPathsFound
  | Summary nat nat
  | PathNotExist string string
  | NotGitRepo string string
  | NoChanges string string
  | Pushed string string
  | Unexpected string string exn
  | CreatingEmpty
  | ErrorReading exn
  | ErrorWriting exn
  | StatusFailed string exn
  | CommandFailed "string list" string exn "string option" "string option"

text \<open>The decimal numeral of a count, and the text of the summary line.\<close>

fun str_nat :: "nat \<Rightarrow> string" where
  "str_nat n =
     (if n < 10 then [char_of (48 + n)]
      else str_nat (n div 10) @ [char_of (48 + n mod 10)])"

definition summary_text :: "nat \<Rightarrow> nat \<Rightarrow> string" where
  "summary_text success_count n_paths =
     ''Successfully updated '' @ str_nat success_count @ ''/'' @ str_nat n_paths
       @ '' repositories''"

section \<open>The state of a run\<close>

text \<open>
  \<^item> \<open>paths_file\<close>: the configuration file;
  \<^item> \<open>writes\<close>: every mapping handed to \<^verbatim>\<open>open(self.paths_file, "w")\<close>, in order;
  \<^item> \<open>procs\<close>: every subprocess invocation so far, in order;
  \<^item> \<open>updated\<close>: the arguments of every call of \<^verbatim>\<open>update_repository\<close> so far, in order;
  \<^item> \<open>logs\<close>: the records handed to the logger, in order.
\<close>

record state =
  paths_file :: paths_file_state
  writes :: "json list"
  procs :: "invocation list"
  updated :: "(string \<times> json) list"
  logs :: "(level \<times> message) list"

definition logger :: "level \<Rightarrow> message \<Rightarrow> state \<Rightarrow> state" where
  "logger l m s = s\<lparr>logs := logs s @ [(l, m)]\<rparr>"

section \<open>Subprocesses\<close>

text \<open>
  \<^verbatim>\<open>subprocess.run(argv, cwd=cwd, check=True, capture_output=True, text=True)\<close>: with
  \<^verbatim>\<open>check=True\<close> a non-zero return code raises \<^verbatim>\<open>CalledProcessError\<close>.
\<close>

definition subprocess_run ::
  "env \<Rightarrow> string list \<Rightarrow> string \<Rightarrow> state \<Rightarrow> (exn + completed) \<times> state" where
  "subprocess_run env argv cwd s =
     (let s' = s\<lparr>procs := procs s @ [(argv, cwd)]\<rparr> in
      case run_at env (procs s) (argv, cwd) of
        Inl e \<Rightarrow> (Inl e, s')
      | Inr c \<Rightarrow>
          if returncode c \<noteq> 0
          then (Inl (CalledProcessError (returncode c) argv (stdout c) (stderr c)), s')
          else (Inr c, s'))"

text \<open>\<^verbatim>\<open>_has_changes\<close>: \<open>Inr None\<close> is the \<^verbatim>\<open>None\<close> returned after the handler.\<close>

definition has_changes :: "env \<Rightarrow> string \<Rightarrow> state \<Rightarrow> (exn + bool option) \<times> state" where
  "has_changes env repo_path s =
     (case subprocess_run env [''git'', ''status'', ''--porcelain''] repo_path s of
        (Inr result, s1) \<Rightarrow> (Inr (Some (strip (stdout result) \<noteq> [])), s1)
      | (Inl e, s1) \<Rightarrow>
          if is_CalledProcessError e
          then (Inr None, logger ERROR (StatusFailed repo_path e) s1)
          else (Inl e, s1))"

text \<open>\<^verbatim>\<open>_execute_git_command\<close>.\<close>

fun captured :: "exn \<Rightarrow> string \<times> string" where
  "captured (CalledProcessError rc cmd out err) = (out, err)"
| "captured e = ([], [])"

definition stream_part :: "string \<Rightarrow> string option" where
  "stream_part out = (if out \<noteq> [] then Some (strip out) else None)"

definition execute_git_command ::
  "env \<Rightarrow> string list \<Rightarrow> string \<Rightarrow> state \<Rightarrow> (exn + bool) \<times> state" where
  "execute_git_command env command repo_path s =
     (case subprocess_run env command repo_path s of
        (Inr result, s1) \<Rightarrow> (Inr True, s1)
      | (Inl e, s1) \<Rightarrow>
          if is_CalledProcessError e
          then (Inr False,
                logger ERROR
                  (CommandFailed command repo_path e
                     (stream_part (fst (captured e))) (stream_part (snd (captured e)))) s1)
          else (Inl e, s1))"

section \<open>Updating one repository\<close>

text \<open>\<^verbatim>\<open>repo_path / ".git"\<close>, as the name under which the world answers for it.\<close>

definition git_dir :: "string \<Rightarrow> string" where
  "git_dir repo_path = repo_path @ ''/.git''"

text \<open>The body of the \<^verbatim>\<open>try\<close> block of \<^verbatim>\<open>update_repository\<close>.\<close>

definition update_steps ::
  "env \<Rightarrow> string \<Rightarrow> string \<Rightarrow> state \<Rightarrow> (exn + bool) \<times> state" where
  "update_steps env name path s =
     (case has_changes env path s of
        (Inl e, s1) \<Rightarrow> (Inl e, s1)
      | (Inr changed, s1) \<Rightarrow>
          if py_not changed then (Inr True, logger INFO (NoChanges name path) s1)
          else
            (case execute_git_command env [''git'', ''add'', ''.''] path s1 of
               (Inl e, s2) \<Rightarrow> (Inl e, s2)
             | (Inr added, s2) \<Rightarrow>
                 if \<not> added then (Inr False, s2)
                 else
                   (case execute_git_command env
                           [''git'', ''commit'', ''-m'', DEFAULT_COMMIT_MESSAGE env] path s2 of
                      (Inl e, s3) \<Rightarrow> (Inl e, s3)
                    | (Inr committed, s3) \<Rightarrow>
                        if \<not> committed then (Inr False, s3)
                        else
                          (case execute_git_command env [''git'', ''push''] path s3 of
                             (Inl e, s4) \<Rightarrow> (Inl e, s4)
                           | (Inr pushed, s4) \<Rightarrow>
                               if \<not> pushed then (Inr False, s4)
                               else (Inr True, logger INFO (Pushed name path) s4)))))"

text \<open>
  \<^verbatim>\<open>update_repository(name, path)\<close>. The caller passes whatever value the mapping holds
  for \<open>name\<close>; \<^verbatim>\<open>Path(path)\<close> raises \<^verbatim>\<open>TypeError\<close> for anything but a string. The two
  existence checks come before the \<^verbatim>\<open>try\<close>; \<^verbatim>\<open>except Exception\<close> covers the steps only.
\<close>

definition update_repository ::
  "env \<Rightarrow> string \<Rightarrow> json \<Rightarrow> state \<Rightarrow> (exn + bool) \<times> state" where
  "update_repository env name path s0 =
     (let s = s0\<lparr>updated := updated s0 @ [(name, path)]\<rparr> in
      case path of
        JStr p \<Rightarrow>
          (case exists_at env (procs s) p of
             Inl e \<Rightarrow> (Inl e, s)
           | Inr there \<Rightarrow>
               if \<not> there then (Inr False, logger ERROR (PathNotExist name p) s)
               else
                 (case exists_at env (procs s) (git_dir p) of
                    Inl e \<Rightarrow> (Inl e, s)
                  | Inr tracked \<Rightarrow>
                      if \<not> tracked then (Inr False, logger WARNING (NotGitRepo name p) s)
                      else
                        (case update_steps env name p s of
                           (Inl e, s') \<Rightarrow> (Inr False, logger ERROR (Unexpected name p e) s')
                         | (Inr b, s') \<Rightarrow> (Inr b, s'))))
      | _ \<Rightarrow> (Inl TypeError, s))"

section \<open>The configuration file\<close>

text \<open>
  \<^verbatim>\<open>_save_paths\<close>: a write that works leaves a file from which \<^verbatim>\<open>json.load\<close> reads
  the mapping back; only an \<^verbatim>\<open>OSError\<close> is handled.
\<close>

definition save_paths :: "env \<Rightarrow> json \<Rightarrow> state \<Rightarrow> (exn + unit) \<times> state" where
  "save_paths env paths s =
     (let s' = s\<lparr>writes := writes s @ [paths]\<rparr> in
      case write_fault env of
        None \<Rightarrow> (Inr (), s'\<lparr>paths_file := Present (Loads paths)\<rparr>)
      | Some (e, left) \<Rightarrow>
          if is_OSError e
          then (Inr (), logger ERROR (ErrorWriting e) (s'\<lparr>paths_file := left\<rparr>))
          else (Inl e, s'\<lparr>paths_file := left\<rparr>))"

text \<open>
  \<^verbatim>\<open>load_paths\<close>: the result is the loaded object; \<open>JNull\<close> is Python's \<^verbatim>\<open>None\<close>, which
  is also what the function returns after the \<^verbatim>\<open>JSONDecodeError\<close> handler.
\<close>

definition load_paths :: "env \<Rightarrow> state \<Rightarrow> (exn + json) \<times> state" where
  "load_paths env s =
     (case paths_file s of
        StatRaises e \<Rightarrow> (Inl e, s)
      | Absent \<Rightarrow>
          (case save_paths env (JDict []) (logger WARNING CreatingEmpty s) of
             (Inl e, s1) \<Rightarrow> (Inl e, s1)
           | (Inr u, s1) \<Rightarrow> (Inr (JDict []), s1))
      | Present (Loads paths) \<Rightarrow> (Inr paths, s)
      | Present (LoadRaises e) \<Rightarrow>
          if is_JSONDecodeError e then (Inr JNull, logger ERROR (ErrorReading e) s)
          else (Inl e, s))"

section \<open>Updating every repository\<close>

text \<open>The \<^verbatim>\<open>for\<close> loop of \<^verbatim>\<open>update_all_repositories\<close>, with its counter.\<close>

fun update_each ::
  "env \<Rightarrow> (string \<times> json) list \<Rightarrow> nat \<Rightarrow> state \<Rightarrow> (exn + nat) \<times> state" where
  "update_each env [] success_count s = (Inr success_count, s)"
| "update_each env ((name, path) # rest) success_count s =
     (case update_repository env name path s of
        (Inl e, s') \<Rightarrow> (Inl e, s')
      | (Inr ok, s') \<Rightarrow>
          update_each env rest (if ok then success_count + 1 else success_count) s')"

definition update_all_repositories :: "env \<Rightarrow> state \<Rightarrow> (exn + unit) \<times> state" where
  "update_all_repositories env s =
     (case load_paths env s of
        (Inl e, s1) \<Rightarrow> (Inl e, s1)
      | (Inr paths, s1) \<Rightarrow>
          if \<not> truthy paths then (Inr (), logger WARNING NoPathsFound s1)
          else
            (case items paths of
               Inl e \<Rightarrow> (Inl e, s1)
             | Inr kvs \<Rightarrow>
                 (case update_each env kvs 0 s1 of
                    (Inl e, s2) \<Rightarrow> (Inl e, s2)
                  | (Inr success_count, s2) \<Rightarrow>
                      (Inr (), logger INFO (Summary success_count (len kvs)) s2))))"

section \<open>Notions used to state the properties\<close>

text \<open>
  A command succeeds when its process can be started and exits with status zero; it
  fails when it exits with another status or when running it raises.
\<close>

definition succeeds :: "env \<Rightarrow> invocation list \<Rightarrow> invocation \<Rightarrow> bool" where
  "succeeds env h i = (case run_at env h i of Inl e \<Rightarrow> False | Inr c \<Rightarrow> returncode c = 0)"

definition status_query :: "string \<Rightarrow> invocation" where
  "status_query p = ([''git'', ''status'', ''--porcelain''], p)"

definition stage :: "string \<Rightarrow> invocation" where
  "stage p = ([''git'', ''add'', ''.''], p)"

definition commit :: "env \<Rightarrow> string \<Rightarrow> invocation" where
  "commit env p = ([''git'', ''commit'', ''-m'', DEFAULT_COMMIT_MESSAGE env], p)"

definition push :: "string \<Rightarrow> invocation" where
  "push p = ([''git'', ''push''], p)"

text \<open>
  The status query reports uncommitted changes (it exits with zero and prints something
  other than whitespace), or reports none.
\<close>

definition reports_changes :: "env \<Rightarrow> invocation list \<Rightarrow> string \<Rightarrow> bool" where
  "reports_changes env h p =
     (case run_at env h (status_query p) of
        Inl e \<Rightarrow> False
      | Inr c \<Rightarrow> returncode c = 0 \<and> strip (stdout c) \<noteq> [])"

definition reports_clean :: "env \<Rightarrow> invocation list \<Rightarrow> string \<Rightarrow> bool" where
  "reports_clean env h p =
     (case run_at env h (status_query p) of
        Inl e \<Rightarrow> False
      | Inr c \<Rightarrow> returncode c = 0 \<and> strip (stdout c) = [])"

text \<open>
  A mapping value on which \<^verbatim>\<open>update_repository\<close> reaches its \<^verbatim>\<open>try\<close> block or returns
  before it: a string for which the existence checks that are made return.
\<close>

fun checkable :: "env \<Rightarrow> invocation list \<Rightarrow> json \<Rightarrow> bool" where
  "checkable env h (JStr p) =
     (case exists_at env h p of
        Inl e \<Rightarrow> False
      | Inr there \<Rightarrow>
          \<not> there \<or> (case exists_at env h (git_dir p) of Inl e \<Rightarrow> False | Inr t \<Rightarrow> True))"
| "checkable env h v = False"

text \<open>The booleans that the successive calls of \<^verbatim>\<open>update_repository\<close> return.\<close>

fun outcomes :: "env \<Rightarrow> (string \<times> json) list \<Rightarrow> state \<Rightarrow> bool list" where
  "outcomes env [] s = []"
| "outcomes env ((name, path) # rest) s =
     (case update_repository env name path s of
        (Inl e, s') \<Rightarrow> []
      | (Inr ok, s') \<Rightarrow> ok # outcomes env rest s')"

definition successes :: "env \<Rightarrow> (string \<times> json) list \<Rightarrow> state \<Rightarrow> nat" where
  "successes env kvs s = length (filter (\<lambda>ok. ok) (outcomes env kvs s))"

section \<open>A concrete world\<close>


definition repo_world :: env where
  "repo_world =
     \<lparr> entry_at = (\<lambda>h p.
         length p \<le> 4095 \<and>
         p \<in> set [''/work/app'', ''/work/app/.git'', ''/work/docs'',
                   ''/work/docs/.git'', ''/work/notes'', ''/work/broken'',
                   ''/work/broken/.git'', ''/work/offline'', ''/work/offline/.git'',
                   ''/opt/tool'', ''/opt/tool/.git'', ''/locked/repo'', ''/work/sealed'']),
       stat_error_at = (\<lambda>h p.
         if 4095 < length p then Some (OSError ''File name too long'')
         else if p = ''/locked/repo'' \<or> p = ''/work/sealed/.git''
           then Some (OSError ''Permission denied'')
         else None),
       run_at = (\<lambda>h (argv, cwd).
         if cwd = ''/opt/tool'' then Inl (OSError ''No such file or directory'')
         else if cwd = ''/work/broken'' then Inr (Completed 128 [] ''fatal: bad object'')
         else if argv = [''git'', ''status'', ''--porcelain'']
           then (if cwd = ''/work/docs'' then Inr (Completed 0 [CHR 0x0A] [])
                 else Inr (Completed 0 ('' M notes.txt'' @ [CHR 0x0A]) []))
         else if argv = [''git'', ''push''] \<and> cwd = ''/work/offline''
           then Inr (Completed 1 [] ''fatal: unable to access remote'')
         else Inr (Completed 0 [] [])),
       write_fault = None,
       DEFAULT_COMMIT_MESSAGE = ''Auto-commit: Updated files - 2024-01-01 00:00'' \<rparr>"

text \<open>The same world with a configuration directory that may not be written.\<close>

definition readonly_world :: env where
  "readonly_world = repo_world\<lparr>write_fault := Some (OSError ''Permission denied'', Absent)\<rparr>"

text \<open>
  The same world with a full disk: the file is created by \<^verbatim>\<open>open\<close>, the write of its
  content fails, and what is left is an empty file, which is not valid JSON.
\<close>

definition full_disk_world :: env where
  "full_disk_world =
     repo_world\<lparr>write_fault :=
       Some (OSError ''No space left on device'', Present (LoadRaises JSONDecodeError))\<rparr>"

text \<open>A run that starts with the configuration file in the given state.\<close>

definition start :: "paths_file_state \<Rightarrow> state" where
  "start f = \<lparr> paths_file = f, writes = [], procs = [], updated = [], logs = [] \<rparr>"

section \<open>What each call leaves unchanged\<close>

lemma subprocess_run_snd:
  "snd (subprocess_run env argv cwd s) = s\<lparr>procs := procs s @ [(argv, cwd)]\<rparr>"
  by (simp add: subprocess_run_def Let_def split: sum.splits)

lemma subprocess_run_fst:
  "fst (subprocess_run env argv cwd s) =
     (case run_at env (procs s) (argv, cwd) of
        Inl e \<Rightarrow> Inl e
      | Inr c \<Rightarrow> if returncode c \<noteq> 0
                 then Inl (CalledProcessError (returncode c) argv (stdout c) (stderr c))
                 else Inr c)"
  by (simp add: subprocess_run_def Let_def split: sum.splits)

lemma has_changes_procs:
  "procs (snd (has_changes env p s)) = procs s @ [status_query p]"
  by (simp add: has_changes_def subprocess_run_def status_query_def logger_def Let_def
      split: sum.splits prod.splits)

lemma has_changes_frame:
  "updated (snd (has_changes env p s)) = updated s \<and>
   writes (snd (has_changes env p s)) = writes s \<and>
   paths_file (snd (has_changes env p s)) = paths_file s"
  by (simp add: has_changes_def subprocess_run_def logger_def Let_def
      split: sum.splits prod.splits)

lemma execute_git_command_procs:
  "procs (snd (execute_git_command env c p s)) = procs s @ [(c, p)]"
  by (simp add: execute_git_command_def subprocess_run_def logger_def Let_def
      split: sum.splits prod.splits)

lemma execute_git_command_frame:
  "updated (snd (execute_git_command env c p s)) = updated s \<and>
   writes (snd (execute_git_command env c p s)) = writes s \<and>
   paths_file (snd (execute_git_command env c p s)) = paths_file s"
  by (simp add: execute_git_command_def subprocess_run_def logger_def Let_def
      split: sum.splits prod.splits)

lemma execute_git_command_ok:
  "(fst (execute_git_command env c p s) = Inr True) = succeeds env (procs s) (c, p)"
  by (auto simp add: execute_git_command_def subprocess_run_def succeeds_def Let_def
      split: sum.splits prod.splits)

lemma update_steps_frame:
  "updated (snd (update_steps env name p s)) = updated s \<and>
   writes (snd (update_steps env name p s)) = writes s \<and>
   paths_file (snd (update_steps env name p s)) = paths_file s"
proof -
  have e: "\<And>c t r t'. execute_git_command env c p t = (r, t') \<Longrightarrow>
      updated t' = updated t \<and> writes t' = writes t \<and> paths_file t' = paths_file t"
    using execute_git_command_frame by (metis snd_conv)
  have h: "\<And>t r t'. has_changes env p t = (r, t') \<Longrightarrow>
      updated t' = updated t \<and> writes t' = writes t \<and> paths_file t' = paths_file t"
    using has_changes_frame by (metis snd_conv)
  show ?thesis
    by (auto simp add: update_steps_def logger_def split: prod.splits sum.splits dest!: e h)
qed

lemma update_steps_clean:
  assumes "\<not> reports_changes env (procs s) p"
  shows "procs (snd (update_steps env name p s)) = procs s @ [status_query p]"
    and "succeeds env (procs s) (status_query p) \<Longrightarrow>
         update_steps env name p s =
           (Inr True, logger INFO (NoChanges name p) (s\<lparr>procs := procs s @ [status_query p]\<rparr>))"
  using assms
  by (auto simp add: update_steps_def has_changes_def subprocess_run_def reports_changes_def
      succeeds_def status_query_def logger_def Let_def split: sum.splits prod.splits)

lemma update_steps_changes:
  assumes "reports_changes env (procs s) p"
  shows "procs (snd (update_steps env name p s)) =
           (procs s @ [status_query p]) @
           (if \<not> succeeds env (procs s @ [status_query p]) (stage p) then [stage p]
            else if \<not> succeeds env (procs s @ [status_query p, stage p]) (commit env p)
              then [stage p, commit env p]
            else [stage p, commit env p, push p])"
    and "(fst (update_steps env name p s) = Inr True) =
           (succeeds env (procs s @ [status_query p]) (stage p) \<and>
            succeeds env (procs s @ [status_query p, stage p]) (commit env p) \<and>
            succeeds env (procs s @ [status_query p, stage p, commit env p]) (push p))"
  using assms
  by (auto simp add: update_steps_def has_changes_def execute_git_command_def
      subprocess_run_def reports_changes_def
      succeeds_def status_query_def stage_def commit_def push_def logger_def Let_def
      split: sum.splits prod.splits if_splits)


lemma update_repository_frame:
  "updated (snd (update_repository env name path s)) = updated s @ [(name, path)] \<and>
   writes (snd (update_repository env name path s)) = writes s \<and>
   paths_file (snd (update_repository env name path s)) = paths_file s"
proof (cases path)
  case (JStr p)
  let ?s = "s\<lparr>updated := updated s @ [(name, JStr p)]\<rparr>"
  obtain r t where rt: "update_steps env name p ?s = (r, t)"
    by (cases "update_steps env name p ?s")
  have "updated t = updated s @ [(name, JStr p)] \<and> writes t = writes s \<and>
        paths_file t = paths_file s"
    using update_steps_frame [of env name p ?s] rt by simp
  then show ?thesis
    using JStr rt
    by (auto simp add: update_repository_def logger_def Let_def split: sum.splits)
qed (simp_all add: update_repository_def)

text \<open>Past both existence checks, the call returns what the steps do, an exception
  of the steps becoming \<open>False\<close>.\<close>

lemma update_repository_reached:
  assumes "exists_at env (procs s) p = Inr True"
    and "exists_at env (procs s) (git_dir p) = Inr True"
  shows "fst (update_repository env name (JStr p) s) =
           Inr (fst (update_steps env name p (s\<lparr>updated := updated s @ [(name, JStr p)]\<rparr>))
                  = Inr True)"
    and "procs (snd (update_repository env name (JStr p) s)) =
           procs (snd (update_steps env name p (s\<lparr>updated := updated s @ [(name, JStr p)]\<rparr>)))"
  using assms
  by (auto simp add: update_repository_def logger_def Let_def split: sum.splits prod.splits)

lemma update_repository_returns:
  assumes "checkable env (procs s) path"
  shows "\<exists>ok. fst (update_repository env name path s) = Inr ok"
  using assms
  by (cases path)
     (auto simp add: update_repository_def logger_def Let_def split: sum.splits prod.splits)

lemma update_each_frame:
  "writes (snd (update_each env kvs n s)) = writes s \<and>
   paths_file (snd (update_each env kvs n s)) = paths_file s"
proof (induction kvs arbitrary: n s)
  case Nil
  show ?case by simp
next
  case (Cons kv kvs)
  obtain name path where kv: "kv = (name, path)"
    by (cases kv)
  obtain r t where rt: "update_repository env name path s = (r, t)"
    by (cases "update_repository env name path s")
  have t: "writes t = writes s \<and> paths_file t = paths_file s"
    using update_repository_frame [of env name path s] rt by simp
  show ?case
  proof (cases r)
    case (Inl e)
    then show ?thesis using kv rt t by simp
  next
    case (Inr ok)
    then show ?thesis using kv rt t Cons.IH by simp
  qed
qed

text \<open>Where no call raises, the loop calls \<^verbatim>\<open>update_repository\<close> on every entry in
  order and counts the calls that returned \<^verbatim>\<open>True\<close>.\<close>

lemma update_each_runs_all:
  assumes "\<forall>h. \<forall>kv \<in> set kvs. checkable env h (snd kv)"
  shows "\<exists>s'. update_each env kvs n s = (Inr (n + successes env kvs s), s') \<and>
           updated s' = updated s @ kvs \<and>
           length (outcomes env kvs s) = length kvs"
  using assms
proof (induction kvs arbitrary: n s)
  case Nil
  show ?case by (simp add: successes_def)
next
  case (Cons kv kvs)
  obtain name path where kv: "kv = (name, path)"
    by (cases kv)
  have "checkable env (procs s) path"
    using Cons.prems kv by simp
  then obtain ok where ok: "fst (update_repository env name path s) = Inr ok"
    using update_repository_returns by blast
  then obtain t where rt: "update_repository env name path s = (Inr ok, t)"
    by (cases "update_repository env name path s") simp
  have t: "updated t = updated s @ [(name, path)]"
    using update_repository_frame [of env name path s] rt by simp
  have "\<forall>h. \<forall>kv \<in> set kvs. checkable env h (snd kv)"
    using Cons.prems by simp
  then obtain s' where
    s': "update_each env kvs (if ok then n + 1 else n) t =
           (Inr ((if ok then n + 1 else n) + successes env kvs t), s')"
      "updated s' = updated t @ kvs" "length (outcomes env kvs t) = length kvs"
    using Cons.IH by blast
  have "update_each env (kv # kvs) n s = (Inr (n + successes env (kv # kvs) s), s')"
    using kv rt s'(1) by (simp add: successes_def)
  moreover have "updated s' = updated s @ kv # kvs"
    using kv t s'(2) by simp
  moreover have "length (outcomes env (kv # kvs) s) = length (kv # kvs)"
    using kv rt s'(3) by simp
  ultimately show ?case by blast
qed

section \<open>Change detection\<close>

text \<open>
  C8. \<^verbatim>\<open>_has_changes\<close> returns \<^verbatim>\<open>True\<close> exactly when the status query exits with zero
  and its trimmed output is not empty; it returns \<^verbatim>\<open>False\<close> when the query exits with
  zero and the trimmed output is empty; when the query fails the result is neither
  \<^verbatim>\<open>False\<close> nor \<^verbatim>\<open>True\<close>, and it is \<^verbatim>\<open>None\<close> when the query exits with a non-zero
  status.
\<close>

theorem has_changes_tristate:
  "(fst (has_changes env p s) = Inr (Some True) \<longleftrightarrow> reports_changes env (procs s) p) \<and>
   (reports_clean env (procs s) p \<longrightarrow> fst (has_changes env p s) = Inr (Some False)) \<and>
   (\<not> succeeds env (procs s) (status_query p) \<longrightarrow>
      fst (has_changes env p s) \<noteq> Inr (Some False) \<and>
      fst (has_changes env p s) \<noteq> Inr (Some True)) \<and>
   (run_at env (procs s) (status_query p) = Inr c \<and> returncode c \<noteq> 0 \<longrightarrow>
      fst (has_changes env p s) = Inr None)"
  by (auto simp add: has_changes_def subprocess_run_def reports_changes_def
      reports_clean_def succeeds_def status_query_def Let_def split: sum.splits)


theorem has_changes_tristate_witness:
  "reports_clean repo_world (procs (start Absent)) ''/work/docs'' \<and>
   fst (has_changes repo_world ''/work/docs'' (start Absent)) = Inr (Some False) \<and>
   \<not> succeeds repo_world (procs (start Absent)) (status_query ''/work/broken'') \<and>
   fst (has_changes repo_world ''/work/broken'' (start Absent)) = Inr None \<and>
   reports_changes repo_world (procs (start Absent)) ''/work/app'' \<and>
   fst (has_changes repo_world ''/work/app'' (start Absent)) = Inr (Some True)"
proof -
  have clean: "reports_clean repo_world (procs (start Absent)) ''/work/docs''"
    by (simp add: reports_clean_def repo_world_def exists_at_def start_def status_query_def strip_def
        isspace_def)
  have failed: "\<not> succeeds repo_world (procs (start Absent)) (status_query ''/work/broken'')"
    by (simp add: succeeds_def repo_world_def exists_at_def start_def status_query_def)
  have exit: "run_at repo_world (procs (start Absent)) (status_query ''/work/broken'')
                = Inr (Completed 128 [] ''fatal: bad object'') \<and>
              returncode (Completed 128 [] ''fatal: bad object'') \<noteq> 0"
    by (simp add: repo_world_def exists_at_def start_def status_query_def)
  have changed: "reports_changes repo_world (procs (start Absent)) ''/work/app''"
    by (simp add: reports_changes_def repo_world_def exists_at_def start_def status_query_def strip_def
        isspace_def)
  show ?thesis
    using clean failed exit changed
      has_changes_tristate [of repo_world "''/work/docs''" "start Absent"]
      has_changes_tristate [of repo_world "''/work/broken''" "start Absent"
        "Completed 128 [] ''fatal: bad object''"]
      has_changes_tristate [of repo_world "''/work/app''" "start Absent"]
    by simp
qed

section \<open>The update of one repository\<close>




text \<open>
  C6. When the path and its \<^verbatim>\<open>.git\<close> child exist and the status query exits with zero
  and prints nothing but whitespace, \<^verbatim>\<open>update_repository\<close> returns \<^verbatim>\<open>True\<close>, the only
  subprocess it runs is the status query (no stage, commit or push), and it logs
  "No changes to commit".
\<close>

theorem clean_repository_is_success:
  assumes "exists_at env (procs s) p = Inr True"
    and "exists_at env (procs s) (git_dir p) = Inr True"
    and "reports_clean env (procs s) p"
  shows "fst (update_repository env name (JStr p) s) = Inr True \<and>
         procs (snd (update_repository env name (JStr p) s)) = procs s @ [status_query p] \<and>
         logs (snd (update_repository env name (JStr p) s)) =
           logs s @ [(INFO, NoChanges name p)]"
  using assms
  by (auto simp add: update_repository_def update_steps_def has_changes_def
      subprocess_run_def reports_clean_def status_query_def logger_def Let_def
      split: sum.splits)

theorem clean_repository_is_success_witness:
  "reports_clean repo_world (procs (start Absent)) ''/work/docs'' \<and>
   fst (update_repository repo_world ''docs'' (JStr ''/work/docs'') (start Absent)) = Inr True \<and>
   procs (snd (update_repository repo_world ''docs'' (JStr ''/work/docs'') (start Absent))) =
     [status_query ''/work/docs''] \<and>
   logs (snd (update_repository repo_world ''docs'' (JStr ''/work/docs'') (start Absent))) =
     [(INFO, NoChanges ''docs'' ''/work/docs'')]"
proof -
  have there: "exists_at repo_world (procs (start Absent)) ''/work/docs'' = Inr True"
    by (simp add: repo_world_def exists_at_def)
  have tracked: "exists_at repo_world (procs (start Absent)) (git_dir ''/work/docs'') = Inr True"
    by (simp add: repo_world_def exists_at_def git_dir_def)
  have clean: "reports_clean repo_world (procs (start Absent)) ''/work/docs''"
    by (simp add: reports_clean_def repo_world_def exists_at_def start_def status_query_def strip_def
        isspace_def)
  have fresh: "procs (start Absent) = [] \<and> logs (start Absent) = []"
    by (simp add: start_def)
  show ?thesis
    using clean fresh clean_repository_is_success [OF there tracked clean, of "''docs''"]
    by simp
qed

text \<open>
  C5. When the path and its \<^verbatim>\<open>.git\<close> child exist and the status query reports
  changes, the subprocesses run after the status query are stage, commit and push in
  that order, cut after the first one that fails; the result is \<^verbatim>\<open>True\<close> exactly when
  all three succeed (and then exactly these three were run), and \<^verbatim>\<open>False\<close> otherwise.
\<close>

theorem stage_commit_push_in_order:
  assumes "exists_at env (procs s) p = Inr True"
    and "exists_at env (procs s) (git_dir p) = Inr True"
    and "reports_changes env (procs s) p"
  shows "procs (snd (update_repository env name (JStr p) s)) =
           (procs s @ [status_query p]) @
           (if \<not> succeeds env (procs s @ [status_query p]) (stage p) then [stage p]
            else if \<not> succeeds env (procs s @ [status_query p, stage p]) (commit env p)
              then [stage p, commit env p]
            else [stage p, commit env p, push p]) \<and>
         fst (update_repository env name (JStr p) s) =
           Inr (succeeds env (procs s @ [status_query p]) (stage p) \<and>
                succeeds env (procs s @ [status_query p, stage p]) (commit env p) \<and>
                succeeds env (procs s @ [status_query p, stage p, commit env p]) (push p))"
proof -
  let ?s = "s\<lparr>updated := updated s @ [(name, JStr p)]\<rparr>"
  have same: "procs ?s = procs s"
    by simp
  have changes: "reports_changes env (procs ?s) p"
    using assms(3) by simp
  show ?thesis
    using update_repository_reached [OF assms(1,2), of name]
      update_steps_changes [OF changes, of name]
    by (simp only: same)
qed

theorem stage_commit_push_in_order_witness:
  "reports_changes repo_world (procs (start Absent)) ''/work/app'' \<and>
   procs (snd (update_repository repo_world ''app'' (JStr ''/work/app'') (start Absent))) =
     [status_query ''/work/app'', stage ''/work/app'', commit repo_world ''/work/app'',
      push ''/work/app''] \<and>
   fst (update_repository repo_world ''app'' (JStr ''/work/app'') (start Absent)) = Inr True \<and>
   reports_changes repo_world (procs (start Absent)) ''/work/offline'' \<and>
   \<not> succeeds repo_world
       [status_query ''/work/offline'', stage ''/work/offline'',
        commit repo_world ''/work/offline'']
       (push ''/work/offline'') \<and>
   fst (update_repository repo_world ''offline'' (JStr ''/work/offline'') (start Absent)) =
     Inr False"
proof -
  have there: "exists_at repo_world (procs (start Absent)) ''/work/app'' = Inr True"
    "exists_at repo_world (procs (start Absent)) ''/work/offline'' = Inr True"
    by (simp_all add: repo_world_def exists_at_def)
  have tracked: "exists_at repo_world (procs (start Absent)) (git_dir ''/work/app'') = Inr True"
    "exists_at repo_world (procs (start Absent)) (git_dir ''/work/offline'') = Inr True"
    by (simp_all add: repo_world_def exists_at_def git_dir_def)
  have changed: "reports_changes repo_world (procs (start Absent)) ''/work/app''"
    "reports_changes repo_world (procs (start Absent)) ''/work/offline''"
    by (simp_all add: reports_changes_def repo_world_def exists_at_def start_def status_query_def strip_def
        isspace_def)
  have ok: "\<And>h c. succeeds repo_world h (c, ''/work/app'')"
    by (simp add: succeeds_def repo_world_def exists_at_def)
  have off: "\<And>h. \<not> succeeds repo_world h (push ''/work/offline'')"
    by (simp add: succeeds_def repo_world_def exists_at_def push_def)
  have ok': "\<And>h. succeeds repo_world h (stage ''/work/app'')"
    "\<And>h. succeeds repo_world h (commit repo_world ''/work/app'')"
    "\<And>h. succeeds repo_world h (push ''/work/app'')"
    using ok by (simp_all add: stage_def commit_def push_def)
  show ?thesis
    using changed ok' off
      stage_commit_push_in_order [OF there(1) tracked(1) changed(1), of "''app''"]
      stage_commit_push_in_order [OF there(2) tracked(2) changed(2), of "''offline''"]
    by (simp add: start_def)
qed

text \<open>
  C1. A repository whose status query exits with a non-zero status: the spec counts it
  as a failure. The code logs the failed query, then logs "No changes to commit",
  returns \<^verbatim>\<open>True\<close>, and the run counts the repository as updated.
\<close>

lemma failed_status_query_in_general:
  assumes "exists_at env (procs s) p = Inr True"
    and "exists_at env (procs s) (git_dir p) = Inr True"
    and "run_at env (procs s) (status_query p) = Inr c"
    and "returncode c \<noteq> 0"
  shows "fst (update_repository env name (JStr p) s) = Inr True \<and>
         last (logs (snd (update_repository env name (JStr p) s))) = (INFO, NoChanges name p)"
  using assms
  by (auto simp add: update_repository_def update_steps_def has_changes_def
      subprocess_run_def status_query_def logger_def Let_def split: sum.splits)

theorem failed_status_query_counts_as_success:
  "\<not> succeeds repo_world [] (status_query ''/work/broken'') \<and>
   update_repository repo_world ''broken'' (JStr ''/work/broken'') (start Absent) =
     (Inr True,
      \<lparr> paths_file = Absent, writes = [],
        procs = [status_query ''/work/broken''],
        updated = [(''broken'', JStr ''/work/broken'')],
        logs = [(ERROR, StatusFailed ''/work/broken''
                   (CalledProcessError 128 [''git'', ''status'', ''--porcelain''] []
                      ''fatal: bad object'')),
                (INFO, NoChanges ''broken'' ''/work/broken'')] \<rparr>) \<and>
   logs (snd (update_all_repositories repo_world
     (start (Present (Loads (JDict [(''broken'', JStr ''/work/broken'')])))))) =
     [(ERROR, StatusFailed ''/work/broken''
         (CalledProcessError 128 [''git'', ''status'', ''--porcelain''] []
            ''fatal: bad object'')),
      (INFO, NoChanges ''broken'' ''/work/broken''),
      (INFO, Summary 1 1)]"
  by (simp add: update_all_repositories_def load_paths_def update_repository_def
      update_steps_def has_changes_def subprocess_run_def succeeds_def status_query_def
      repo_world_def exists_at_def start_def git_dir_def logger_def len_def Let_def)

text \<open>
  C2. Stated for every name and path, the claim fails: an exception of either existence
  check, or of \<^verbatim>\<open>Path(path)\<close> on a value that is not a string, is raised before the
  \<^verbatim>\<open>try\<close> block, leaves \<^verbatim>\<open>update_repository\<close> and ends \<^verbatim>\<open>update_all_repositories\<close>.
\<close>

theorem existence_check_error_escapes:
  "fst (update_repository repo_world ''locked'' (JStr ''/locked/repo'') (start Absent)) =
     Inl (OSError ''Permission denied'') \<and>
   fst (update_repository repo_world ''count'' (JInt 1) (start Absent)) = Inl TypeError \<and>
   fst (update_all_repositories repo_world
     (start (Present (Loads (JDict [(''locked'', JStr ''/locked/repo'')]))))) =
     Inl (OSError ''Permission denied'')"
  by (simp add: update_all_repositories_def load_paths_def update_repository_def
      repo_world_def exists_at_def start_def Let_def)

text \<open>
  C2, amended. For a string path whose existence checks return, \<^verbatim>\<open>update_repository\<close>
  returns a boolean; an exception that leaves the steps of the \<^verbatim>\<open>try\<close> block is caught,
  logged as unexpected, and gives \<^verbatim>\<open>False\<close>. An exception of an existence check is
  the result of the call.
\<close>

theorem exceptions_of_the_steps_are_caught:
  "(checkable env (procs s) (JStr p) \<longrightarrow>
      (\<exists>ok. fst (update_repository env name (JStr p) s) = Inr ok)) \<and>
   (exists_at env (procs s) p = Inr True \<and> exists_at env (procs s) (git_dir p) = Inr True \<and>
    fst (update_steps env name p (s\<lparr>updated := updated s @ [(name, JStr p)]\<rparr>)) = Inl e \<longrightarrow>
      fst (update_repository env name (JStr p) s) = Inr False \<and>
      last (logs (snd (update_repository env name (JStr p) s))) = (ERROR, Unexpected name p e)) \<and>
   (exists_at env (procs s) p = Inl e \<or>
    exists_at env (procs s) p = Inr True \<and> exists_at env (procs s) (git_dir p) = Inl e \<longrightarrow>
      fst (update_repository env name (JStr p) s) = Inl e)"
proof (intro conjI impI)
  assume "checkable env (procs s) (JStr p)"
  then show "\<exists>ok. fst (update_repository env name (JStr p) s) = Inr ok"
    by (rule update_repository_returns)
next
  let ?s = "s\<lparr>updated := updated s @ [(name, JStr p)]\<rparr>"
  assume a: "exists_at env (procs s) p = Inr True \<and>
    exists_at env (procs s) (git_dir p) = Inr True \<and>
    fst (update_steps env name p ?s) = Inl e"
  obtain t where t: "update_steps env name p ?s = (Inl e, t)"
    using a by (cases "update_steps env name p ?s") simp
  have r: "update_repository env name (JStr p) s = (Inr False, logger ERROR (Unexpected name p e) t)"
    using a t by (simp add: update_repository_def Let_def)
  show "fst (update_repository env name (JStr p) s) = Inr False"
    using r by simp
  show "last (logs (snd (update_repository env name (JStr p) s))) = (ERROR, Unexpected name p e)"
    using r by (simp add: logger_def)
next
  assume "exists_at env (procs s) p = Inl e \<or>
    exists_at env (procs s) p = Inr True \<and> exists_at env (procs s) (git_dir p) = Inl e"
  then show "fst (update_repository env name (JStr p) s) = Inl e"
    by (auto simp add: update_repository_def Let_def)
qed

theorem exceptions_of_the_steps_are_caught_witness:
  "checkable repo_world (procs (start Absent)) (JStr ''/opt/tool'') \<and>
   fst (update_steps repo_world ''tool'' ''/opt/tool''
     ((start Absent)\<lparr>updated := updated (start Absent) @ [(''tool'', JStr ''/opt/tool'')]\<rparr>)) =
     Inl (OSError ''No such file or directory'') \<and>
   fst (update_repository repo_world ''tool'' (JStr ''/opt/tool'') (start Absent)) = Inr False \<and>
   last (logs (snd (update_repository repo_world ''tool'' (JStr ''/opt/tool'') (start Absent)))) =
     (ERROR, Unexpected ''tool'' ''/opt/tool'' (OSError ''No such file or directory'')) \<and>
   exists_at repo_world (procs (start Absent)) ''/locked/repo'' =
     Inl (OSError ''Permission denied'') \<and>
   fst (update_repository repo_world ''locked'' (JStr ''/locked/repo'') (start Absent)) =
     Inl (OSError ''Permission denied'')"
proof -
  have ok: "checkable repo_world (procs (start Absent)) (JStr ''/opt/tool'')"
    by (simp add: repo_world_def exists_at_def git_dir_def)
  have there: "exists_at repo_world (procs (start Absent)) ''/opt/tool'' = Inr True \<and>
      exists_at repo_world (procs (start Absent)) (git_dir ''/opt/tool'') = Inr True"
    by (simp add: repo_world_def exists_at_def git_dir_def)
  have raised: "fst (update_steps repo_world ''tool'' ''/opt/tool''
      ((start Absent)\<lparr>updated := updated (start Absent) @ [(''tool'', JStr ''/opt/tool'')]\<rparr>)) =
      Inl (OSError ''No such file or directory'')"
    by (simp add: update_steps_def has_changes_def subprocess_run_def repo_world_def exists_at_def
        start_def Let_def)
  have locked: "exists_at repo_world (procs (start Absent)) ''/locked/repo'' =
      Inl (OSError ''Permission denied'')"
    by (simp add: repo_world_def exists_at_def)
  show ?thesis
    using ok there raised locked
      exceptions_of_the_steps_are_caught [of repo_world "start Absent" "''/opt/tool''"
        "''tool''" "OSError ''No such file or directory''"]
      exceptions_of_the_steps_are_caught [of repo_world "start Absent" "''/locked/repo''"
        "''locked''" "OSError ''Permission denied''"]
    by simp
qed

section \<open>Loading the configuration\<close>

text \<open>
  C10. When opening or reading the existing file raises an \<^verbatim>\<open>OSError\<close>,
  \<^verbatim>\<open>load_paths\<close> does not handle it and neither does \<^verbatim>\<open>update_all_repositories\<close>:
  the exception is the result of the run, and nothing was logged, written or updated.
\<close>

theorem read_error_ends_the_run:
  assumes "paths_file s = Present (LoadRaises (OSError msg))"
  shows "load_paths env s = (Inl (OSError msg), s) \<and>
         update_all_repositories env s = (Inl (OSError msg), s)"
  using assms by (simp add: update_all_repositories_def load_paths_def)

theorem read_error_ends_the_run_witness:
  "paths_file (start (Present (LoadRaises (OSError ''Permission denied'')))) =
     Present (LoadRaises (OSError ''Permission denied'')) \<and>
   update_all_repositories repo_world
     (start (Present (LoadRaises (OSError ''Permission denied'')))) =
     (Inl (OSError ''Permission denied''),
      start (Present (LoadRaises (OSError ''Permission denied''))))"
proof -
  have unreadable: "paths_file (start (Present (LoadRaises (OSError ''Permission denied'')))) =
      Present (LoadRaises (OSError ''Permission denied''))"
    by (simp add: start_def)
  show ?thesis
    using unreadable read_error_ends_the_run [OF unreadable, of repo_world]
    by simp
qed

text \<open>
  C3. Stated for every content that is not the expected mapping, the claim fails on
  valid JSON that is truthy and not an object: \<^verbatim>\<open>load_paths\<close> returns the value, and
  \<^verbatim>\<open>update_all_repositories\<close> raises \<^verbatim>\<open>AttributeError\<close> without logging a warning.
\<close>

theorem json_list_is_taken_for_a_mapping:
  "load_paths repo_world (start (Present (Loads (JList [JStr ''/work/app''])))) =
     (Inr (JList [JStr ''/work/app'']), start (Present (Loads (JList [JStr ''/work/app''])))) \<and>
   update_all_repositories repo_world (start (Present (Loads (JList [JStr ''/work/app''])))) =
     (Inl AttributeError, start (Present (Loads (JList [JStr ''/work/app'']))))"
  by (simp add: update_all_repositories_def load_paths_def start_def)

text \<open>
  C3, amended. When the existing file is not valid JSON, \<^verbatim>\<open>load_paths\<close> returns
  \<^verbatim>\<open>None\<close>; in that case, and when the file holds a falsy JSON value,
  \<^verbatim>\<open>update_all_repositories\<close> logs the warning and returns without raising, without a
  call of \<^verbatim>\<open>update_repository\<close> and without a subprocess. When the file holds a truthy
  JSON value that is not an object, \<^verbatim>\<open>update_all_repositories\<close> raises
  \<^verbatim>\<open>AttributeError\<close>, also without a call of \<^verbatim>\<open>update_repository\<close>.
\<close>

theorem undecodable_file_means_no_paths:
  assumes "paths_file s = Present r"
  shows "(r = LoadRaises JSONDecodeError \<longrightarrow> fst (load_paths env s) = Inr JNull) \<and>
         (r = LoadRaises JSONDecodeError \<or> (\<exists>v. r = Loads v \<and> \<not> truthy v) \<longrightarrow>
            fst (update_all_repositories env s) = Inr () \<and>
            last (logs (snd (update_all_repositories env s))) = (WARNING, NoPathsFound) \<and>
            updated (snd (update_all_repositories env s)) = updated s \<and>
            procs (snd (update_all_repositories env s)) = procs s) \<and>
         ((\<exists>v. r = Loads v \<and> truthy v \<and> (\<forall>kvs. v \<noteq> JDict kvs)) \<longrightarrow>
            update_all_repositories env s = (Inl AttributeError, s))"
proof (intro conjI impI)
  assume "r = LoadRaises JSONDecodeError"
  then show "fst (load_paths env s) = Inr JNull"
    using assms by (simp add: load_paths_def)
next
  assume "r = LoadRaises JSONDecodeError \<or> (\<exists>v. r = Loads v \<and> \<not> truthy v)"
  then have "update_all_repositories env s =
      (Inr (), logger WARNING NoPathsFound
         (if r = LoadRaises JSONDecodeError then logger ERROR (ErrorReading JSONDecodeError) s
          else s))"
    using assms by (auto simp add: update_all_repositories_def load_paths_def)
  then show "fst (update_all_repositories env s) = Inr ()"
    and "last (logs (snd (update_all_repositories env s))) = (WARNING, NoPathsFound)"
    and "updated (snd (update_all_repositories env s)) = updated s"
    and "procs (snd (update_all_repositories env s)) = procs s"
    by (simp_all add: logger_def)
next
  assume "\<exists>v. r = Loads v \<and> truthy v \<and> (\<forall>kvs. v \<noteq> JDict kvs)"
  then obtain v where v: "r = Loads v" "truthy v" "\<forall>kvs. v \<noteq> JDict kvs"
    by blast
  have "items v = Inl AttributeError"
    using v(3) by (cases v) simp_all
  then show "update_all_repositories env s = (Inl AttributeError, s)"
    using assms v by (simp add: update_all_repositories_def load_paths_def)
qed

theorem undecodable_file_means_no_paths_witness:
  "fst (load_paths repo_world (start (Present (LoadRaises JSONDecodeError)))) = Inr JNull \<and>
   fst (update_all_repositories repo_world (start (Present (LoadRaises JSONDecodeError)))) =
     Inr () \<and>
   last (logs (snd (update_all_repositories repo_world
     (start (Present (LoadRaises JSONDecodeError)))))) = (WARNING, NoPathsFound) \<and>
   updated (snd (update_all_repositories repo_world
     (start (Present (LoadRaises JSONDecodeError))))) = [] \<and>
   \<not> truthy (JList []) \<and>
   fst (update_all_repositories repo_world (start (Present (Loads (JList []))))) = Inr () \<and>
   truthy (JInt 7) \<and>
   fst (update_all_repositories repo_world (start (Present (Loads (JInt 7))))) =
     Inl AttributeError"
proof -
  have f: "\<And>r. paths_file (start (Present r)) = Present r"
    by (simp add: start_def)
  have fresh: "\<And>r. updated (start r) = []"
    by (simp add: start_def)
  show ?thesis
    using fresh
      undecodable_file_means_no_paths [OF f, of "LoadRaises JSONDecodeError" repo_world]
      undecodable_file_means_no_paths [OF f, of "Loads (JList [])" repo_world]
      undecodable_file_means_no_paths [OF f, of "Loads (JInt 7)" repo_world]
    by simp
qed

text \<open>
  C9. Stated for every absent file, the claim fails where the file cannot be written:
  the first call logs the failure and returns an empty mapping, and the file is not
  created; on a full disk the first call leaves an empty file behind, and the second
  call returns \<^verbatim>\<open>None\<close>, not the empty mapping.
\<close>

theorem unwritable_file_is_not_created:
  "fst (load_paths readonly_world (start Absent)) = Inr (JDict []) \<and>
   paths_file (snd (load_paths readonly_world (start Absent))) = Absent \<and>
   fst (load_paths full_disk_world (start Absent)) = Inr (JDict []) \<and>
   fst (load_paths full_disk_world (snd (load_paths full_disk_world (start Absent)))) =
     Inr JNull"
  by (simp add: load_paths_def save_paths_def readonly_world_def full_disk_world_def
      repo_world_def exists_at_def start_def logger_def Let_def)

text \<open>
  C9, amended. When the file is absent and writing it works, the first call of
  \<^verbatim>\<open>load_paths\<close> creates it with an empty mapping and returns an empty mapping, and a
  second call returns the same empty mapping and changes nothing. When writing it
  fails with an \<^verbatim>\<open>OSError\<close>, the first call logs the write error after the warning and
  still returns an empty mapping, and the file is as the failed write left it. When
  the file is not absent, neither \<^verbatim>\<open>load_paths\<close> nor \<^verbatim>\<open>update_all_repositories\<close>
  writes it.
\<close>

theorem load_paths_creates_once:
  "(paths_file s = Absent \<and> write_fault env = None \<longrightarrow>
      fst (load_paths env s) = Inr (JDict []) \<and>
      paths_file (snd (load_paths env s)) = Present (Loads (JDict [])) \<and>
      writes (snd (load_paths env s)) = writes s @ [JDict []] \<and>
      logs (snd (load_paths env s)) = logs s @ [(WARNING, CreatingEmpty)] \<and>
      load_paths env (snd (load_paths env s)) = (Inr (JDict []), snd (load_paths env s))) \<and>
   (paths_file s = Absent \<and> write_fault env = Some (e, left) \<and> is_OSError e \<longrightarrow>
      fst (load_paths env s) = Inr (JDict []) \<and>
      paths_file (snd (load_paths env s)) = left \<and>
      logs (snd (load_paths env s)) =
        logs s @ [(WARNING, CreatingEmpty), (ERROR, ErrorWriting e)]) \<and>
   (paths_file s \<noteq> Absent \<longrightarrow>
      writes (snd (load_paths env s)) = writes s \<and>
      paths_file (snd (load_paths env s)) = paths_file s \<and>
      writes (snd (update_all_repositories env s)) = writes s \<and>
      paths_file (snd (update_all_repositories env s)) = paths_file s)"
proof (intro conjI impI)
  assume a: "paths_file s \<noteq> Absent"
  obtain r s1 where l: "load_paths env s = (r, s1)"
    by (cases "load_paths env s")
  have s1: "writes s1 = writes s \<and> paths_file s1 = paths_file s"
    using a l
    by (auto simp add: load_paths_def logger_def
        split: paths_file_state.splits file_read.splits if_splits)
  show "writes (snd (load_paths env s)) = writes s"
    and "paths_file (snd (load_paths env s)) = paths_file s"
    using l s1 by simp_all
  have each: "\<And>kvs r2 s2. update_each env kvs 0 s1 = (r2, s2) \<Longrightarrow>
      writes s2 = writes s \<and> paths_file s2 = paths_file s"
    using update_each_frame [of env _ 0 s1] s1 by (metis snd_conv)
  show "writes (snd (update_all_repositories env s)) = writes s"
    using l s1
    by (auto simp add: update_all_repositories_def logger_def
        split: sum.splits prod.splits dest!: each)
  show "paths_file (snd (update_all_repositories env s)) = paths_file s"
    using l s1
    by (auto simp add: update_all_repositories_def logger_def
        split: sum.splits prod.splits dest!: each)
qed (simp_all add: load_paths_def save_paths_def logger_def Let_def)

theorem load_paths_creates_once_witness:
  "paths_file (start Absent) = Absent \<and> write_fault repo_world = None \<and>
   fst (load_paths repo_world (start Absent)) = Inr (JDict []) \<and>
   paths_file (snd (load_paths repo_world (start Absent))) = Present (Loads (JDict [])) \<and>
   logs (snd (load_paths repo_world (start Absent))) = [(WARNING, CreatingEmpty)] \<and>
   fst (load_paths repo_world (snd (load_paths repo_world (start Absent)))) = Inr (JDict []) \<and>
   write_fault readonly_world = Some (OSError ''Permission denied'', Absent) \<and>
   fst (load_paths readonly_world (start Absent)) = Inr (JDict []) \<and>
   paths_file (snd (load_paths readonly_world (start Absent))) = Absent \<and>
   logs (snd (load_paths readonly_world (start Absent))) =
     [(WARNING, CreatingEmpty), (ERROR, ErrorWriting (OSError ''Permission denied''))] \<and>
   paths_file (start (Present (Loads (JDict [(''app'', JStr ''/work/app'')])))) \<noteq> Absent \<and>
   writes (snd (update_all_repositories repo_world
     (start (Present (Loads (JDict [(''app'', JStr ''/work/app'')])))))) = []"
proof -
  have absent: "paths_file (start Absent) = Absent"
    and present: "paths_file (start (Present (Loads (JDict [(''app'', JStr ''/work/app'')]))))
      \<noteq> Absent"
    and fresh: "\<And>f. writes (start f) = []" "\<And>f. logs (start f) = []"
    by (simp_all add: start_def)
  have works: "write_fault repo_world = None"
    by (simp add: repo_world_def)
  have fails: "write_fault readonly_world = Some (OSError ''Permission denied'', Absent)"
    by (simp add: readonly_world_def)
  show ?thesis
    using absent present fresh works fails
      load_paths_creates_once [of "start Absent" repo_world]
      load_paths_creates_once [of "start Absent" readonly_world
        "OSError ''Permission denied''" Absent]
      load_paths_creates_once
        [of "start (Present (Loads (JDict [(''app'', JStr ''/work/app'')])))" repo_world]
    by simp
qed

section \<open>The run over all repositories\<close>

text \<open>
  C4. Stated for every non-empty mapping, the claim fails where a call of
  \<^verbatim>\<open>update_repository\<close> raises: the loop ends there, the entries after it are not
  updated, and no summary is logged.
\<close>

theorem raising_update_ends_the_loop:
  "fst (update_all_repositories repo_world
     (start (Present (Loads (JDict [(''locked'', JStr ''/locked/repo''),
                                    (''app'', JStr ''/work/app'')]))))) =
     Inl (OSError ''Permission denied'') \<and>
   updated (snd (update_all_repositories repo_world
     (start (Present (Loads (JDict [(''locked'', JStr ''/locked/repo''),
                                    (''app'', JStr ''/work/app'')])))))) =
     [(''locked'', JStr ''/locked/repo'')] \<and>
   logs (snd (update_all_repositories repo_world
     (start (Present (Loads (JDict [(''locked'', JStr ''/locked/repo''),
                                    (''app'', JStr ''/work/app'')])))))) = [] \<and>
   update_all_repositories repo_world
     (start (Present (Loads (JDict [(''count'', JInt 1), (''app'', JStr ''/work/app'')])))) =
     (Inl TypeError,
      (start (Present (Loads (JDict [(''count'', JInt 1), (''app'', JStr ''/work/app'')]))))
        \<lparr>updated := [(''count'', JInt 1)]\<rparr>)"
  by (simp add: update_all_repositories_def load_paths_def update_repository_def
      repo_world_def exists_at_def start_def Let_def)

text \<open>
  C4, amended. For a non-empty mapping with N entries on which no call of
  \<^verbatim>\<open>update_repository\<close> raises (every value is a string whose existence checks
  return), \<^verbatim>\<open>update_all_repositories\<close> calls \<^verbatim>\<open>update_repository\<close> exactly N times, once
  per entry in the order of the mapping, whatever booleans the calls return, and then
  logs the summary with the number of calls that returned \<^verbatim>\<open>True\<close> and with N.
\<close>

theorem every_entry_is_updated_once_in_order:
  assumes "paths_file s = Present (Loads (JDict kvs))"
    and "kvs \<noteq> []"
    and "\<forall>h. \<forall>kv \<in> set kvs. checkable env h (snd kv)"
  shows "fst (update_all_repositories env s) = Inr () \<and>
         updated (snd (update_all_repositories env s)) = updated s @ kvs \<and>
         length (outcomes env kvs s) = length kvs \<and>
         last (logs (snd (update_all_repositories env s))) =
           (INFO, Summary (successes env kvs s) (length kvs))"
proof -
  obtain s' where s': "update_each env kvs 0 s = (Inr (0 + successes env kvs s), s')"
    "updated s' = updated s @ kvs" "length (outcomes env kvs s) = length kvs"
    using update_each_runs_all [OF assms(3), of 0 s] by blast
  have "update_all_repositories env s =
      (Inr (), logger INFO (Summary (successes env kvs s) (length kvs)) s')"
    using assms(1,2) s'(1) by (simp add: update_all_repositories_def load_paths_def len_def)
  then show ?thesis
    using s'(2,3) by (simp add: logger_def)
qed

theorem every_entry_is_updated_once_in_order_witness:
  "checkable repo_world [] (JStr ''/work/app'') \<and>
   checkable repo_world [] (JStr ''/missing'') \<and>
   fst (update_all_repositories repo_world
     (start (Present (Loads (JDict [(''app'', JStr ''/work/app''),
                                    (''ghost'', JStr ''/missing'')]))))) = Inr () \<and>
   updated (snd (update_all_repositories repo_world
     (start (Present (Loads (JDict [(''app'', JStr ''/work/app''),
                                    (''ghost'', JStr ''/missing'')])))))) =
     [(''app'', JStr ''/work/app''), (''ghost'', JStr ''/missing'')] \<and>
   last (logs (snd (update_all_repositories repo_world
     (start (Present (Loads (JDict [(''app'', JStr ''/work/app''),
                                    (''ghost'', JStr ''/missing'')]))))))) =
     (INFO, Summary 1 2) \<and>
   summary_text 1 2 = ''Successfully updated 1/2 repositories''"
proof -
  let ?kvs = "[(''app'', JStr ''/work/app''), (''ghost'', JStr ''/missing'')]"
  have cfg: "paths_file (start (Present (Loads (JDict ?kvs)))) = Present (Loads (JDict ?kvs))"
    by (simp add: start_def)
  have some: "?kvs \<noteq> []"
    by simp
  have quiet: "\<forall>h. \<forall>kv \<in> set ?kvs. checkable repo_world h (snd kv)"
    by (simp add: repo_world_def exists_at_def git_dir_def)
  have fresh: "updated (start (Present (Loads (JDict ?kvs)))) = []"
    by (simp add: start_def)
  have count: "successes repo_world ?kvs (start (Present (Loads (JDict ?kvs)))) = 1"
    by (simp add: successes_def update_repository_def update_steps_def has_changes_def
        execute_git_command_def subprocess_run_def repo_world_def exists_at_def start_def git_dir_def
        logger_def strip_def isspace_def Let_def)
  have line: "summary_text 1 2 = ''Successfully updated 1/2 repositories''"
    by code_simp
  show ?thesis
    using quiet fresh count line
      every_entry_is_updated_once_in_order [OF cfg some quiet]
    by simp
qed

end
